theory Spec2Isabelle
  imports Main "HOL-Library.Word"
begin

section \<open>Data model\<close>

text \<open>
  \<^verbatim>\<open>time.Duration\<close> is a signed 64-bit count of nanoseconds; arithmetic on it wraps
  around. \<^verbatim>\<open>time.Second\<close> and \<^verbatim>\<open>time.Minute\<close> are the constants of Go's
  \<^verbatim>\<open>time\<close> package.
\<close>

type_synonym duration = "64 word"

definition Second :: duration where
  "Second = 1000000000"

definition Minute :: duration where
  "Minute = 60 * Second"

text \<open>
  A Go \<^verbatim>\<open>error\<close> value. \<open>Errorf msg e\<close> is \<^verbatim>\<open>fmt.Errorf(msg + ": %w", e)\<close>,
  \<open>ErrTxDone\<close> is \<^verbatim>\<open>sql.ErrTxDone\<close>, \<open>DriverError\<close> is any error that comes out
  of a database driver, \<open>RuntimePanic\<close> the value of a panic raised by a library. A nil
  error is \<open>None\<close> of \<open>error option\<close>.
\<close>

datatype error = DriverError string | ErrTxDone | Errorf string error | RuntimePanic string

text \<open>A peer record: identifier, address, first-seen and last-seen timestamps.\<close>

record node =
  node_id :: nat
  address :: string
  first_seen :: int
  last_seen :: int

text \<open>
  Every call that leaves \<^verbatim>\<open>api.go\<close> is recorded, in program order, together with
  what it returned. The time carried by \<open>TickerRecv\<close> and \<open>CallDropOldNodes\<close> is the
  clock (in nanoseconds) at which the receive returned, respectively the delete was issued.
\<close>

datatype event =
    CallBegin "error option"
  | CallReadAndDeleteUnseenNodes "error option"
  | CallInsertCrawledNodes "node list" "error option"
  | CallCommit "error option"
  | CallRollback "error option"
  | LogInfo string nat
  | LogError string error
  | Sleep duration
  | TickerRecv int
  | CallDropOldNodes int duration "error option"
  | TickerStop

text \<open>
  The two databases and the record of calls. \<open>pending\<close> is the committed content of the
  transient store (\<^verbatim>\<open>crawlerDB\<close>), \<open>serving\<close> the content of the serving store
  (\<^verbatim>\<open>nodeDB\<close>), one row per identifier. \<open>open_tx\<close> is the transaction open at the
  transient store, if there is one: the rows it has deleted, which are not yet gone from
  the committed content.
\<close>

record sys =
  pending :: "node list"
  serving :: "node list"
  open_tx :: "node list option"
  trace :: "event list"

definition emit :: "event \<Rightarrow> sys \<Rightarrow> sys" where
  "emit e s = s\<lparr>trace := trace s @ [e]\<rparr>"

text \<open>
  What the database calls of one synchronization cycle return as their error, should the
  cycle reach them (\<open>None\<close> is nil).
\<close>

record outcomes =
  begin_err :: "error option"
  read_err :: "error option"
  insert_err :: "error option"
  commit_err :: "error option"
  rollback_err :: "error option"

section \<open>The database calls\<close>

text \<open>
  A \<^verbatim>\<open>*sql.Tx\<close> of Go's \<^verbatim>\<open>database/sql\<close> carries the \<^verbatim>\<open>done\<close> flag that Commit
  and Rollback set; what the transaction has deleted is in \<open>open_tx\<close> of the store.
\<close>

record tx =
  tx_done :: bool

text \<open>The rows the open transaction has deleted, and the rows it still sees.\<close>

definition removed_in_tx :: "sys \<Rightarrow> node list" where
  "removed_in_tx s = (case open_tx s of None \<Rightarrow> [] | Some xs \<Rightarrow> xs)"

definition unseen :: "sys \<Rightarrow> node list" where
  "unseen s = filter (\<lambda>n. n \<notin> set (removed_in_tx s)) (pending s)"

text \<open>
  \<^verbatim>\<open>DB.Begin\<close>: on success a fresh transaction, which has deleted nothing, is the one
  open at the store.
\<close>

definition crawlerDB_Begin :: "error option \<Rightarrow> sys \<Rightarrow> (error + tx) \<times> sys" where
  "crawlerDB_Begin r s =
     (case r of
        Some err \<Rightarrow> (Inl err, emit (CallBegin r) s)
      | None \<Rightarrow> (Inr \<lparr>tx_done = False\<rparr>, emit (CallBegin r) (s\<lparr>open_tx := Some []\<rparr>)))"

text \<open>
  \<^verbatim>\<open>Tx.Commit\<close>: a finished transaction answers \<^verbatim>\<open>ErrTxDone\<close> and the driver is not
  reached. Otherwise the handle is finished whatever the driver answers. When the driver's
  commit succeeds the rows deleted in the transaction leave the store and the transaction
  is over; when it fails nothing becomes durable and \<^verbatim>\<open>database/sql\<close> does not roll
  back, so the transaction stays open at the store.
\<close>

definition Tx_Commit :: "error option \<Rightarrow> tx \<Rightarrow> sys \<Rightarrow> error option \<times> tx \<times> sys" where
  "Tx_Commit r t s =
     (if tx_done t then (Some ErrTxDone, t, emit (CallCommit (Some ErrTxDone)) s)
      else
        (case r of
           None \<Rightarrow>
             (None, t\<lparr>tx_done := True\<rparr>,
              emit (CallCommit None)
                (s\<lparr>pending := filter (\<lambda>n. n \<notin> set (removed_in_tx s)) (pending s),
                   open_tx := None\<rparr>))
         | Some err \<Rightarrow> (Some err, t\<lparr>tx_done := True\<rparr>, emit (CallCommit (Some err)) s)))"

text \<open>
  \<^verbatim>\<open>Tx.Rollback\<close>: a finished transaction answers \<^verbatim>\<open>ErrTxDone\<close>, the driver is not
  reached and nothing happens. Otherwise the handle is finished and the driver's answer is
  returned. The transaction is over and its deletions are dropped also when the driver
  answers with an error: a rollback that the driver refuses has found the transaction
  rolled back already.
\<close>

definition Tx_Rollback :: "error option \<Rightarrow> tx \<Rightarrow> sys \<Rightarrow> error option \<times> tx \<times> sys" where
  "Tx_Rollback r t s =
     (if tx_done t then (Some ErrTxDone, t, emit (CallRollback (Some ErrTxDone)) s)
      else (r, t\<lparr>tx_done := True\<rparr>, emit (CallRollback r) (s\<lparr>open_tx := None\<rparr>)))"

text \<open>
  Modelled from the spec: \<^verbatim>\<open>crawlerdb.ReadAndDeleteUnseenNodes\<close> (package
  \<^verbatim>\<open>pkg/crawlerdb\<close>) is not among the sources. The spec: within the transaction,
  extract (read and remove) all pending entries. On an error nothing is returned; a
  finished transaction answers \<^verbatim>\<open>ErrTxDone\<close>.
\<close>

definition ReadAndDeleteUnseenNodes ::
    "error option \<Rightarrow> tx \<Rightarrow> sys \<Rightarrow> (error + node list) \<times> tx \<times> sys" where
  "ReadAndDeleteUnseenNodes r t s =
     (if tx_done t then
        (Inl ErrTxDone, t, emit (CallReadAndDeleteUnseenNodes (Some ErrTxDone)) s)
      else
        (case r of
           Some err \<Rightarrow> (Inl err, t, emit (CallReadAndDeleteUnseenNodes r) s)
         | None \<Rightarrow>
             (Inr (unseen s), t,
              emit (CallReadAndDeleteUnseenNodes r)
                (s\<lparr>open_tx := Some (removed_in_tx s @ unseen s)\<rparr>))))"

text \<open>
  Modelled from the spec: the upsert of the serving store (package \<^verbatim>\<open>pkg/apidb\<close>) is
  not among the sources. The spec: insert-or-update keyed by the identifier, which refreshes
  address and last-seen and preserves first-seen on an existing row.
\<close>

fun upsert :: "node \<Rightarrow> node list \<Rightarrow> node list" where
  "upsert n [] = [n]"
| "upsert n (m # ms) =
     (if node_id m = node_id n then n\<lparr>first_seen := first_seen m\<rparr> # ms
      else m # upsert n ms)"

text \<open>
  Modelled from the spec: \<^verbatim>\<open>apidb.InsertCrawledNodes\<close> is not among the sources. The
  spec: upsert every record of the batch; a batch is never partially visible, so a failed
  call leaves the serving store as it was.
\<close>

definition InsertCrawledNodes :: "error option \<Rightarrow> node list \<Rightarrow> sys \<Rightarrow> error option \<times> sys" where
  "InsertCrawledNodes r nodes s =
     (case r of
        Some err \<Rightarrow> (Some err, emit (CallInsertCrawledNodes nodes r) s)
      | None \<Rightarrow>
          (None, emit (CallInsertCrawledNodes nodes r)
                   (s\<lparr>serving := foldl (\<lambda>rows n. upsert n rows) (serving s) nodes\<rparr>)))"

section \<open>transferNewNodes\<close>

text \<open>
  The part of \<^verbatim>\<open>transferNewNodes\<close> that runs after \<^verbatim>\<open>defer crawlerDBTx.Rollback()\<close>
  has been registered (lines 146 to 164). The error returned by Commit is dropped.
\<close>

definition transferNewNodes_body :: "outcomes \<Rightarrow> tx \<Rightarrow> sys \<Rightarrow> error option \<times> tx \<times> sys" where
  "transferNewNodes_body oc crawlerDBTx s =
     (case ReadAndDeleteUnseenNodes (read_err oc) crawlerDBTx s of
        (Inl err, t1, s1) \<Rightarrow> (Some (Errorf ''error reading nodes'' err), t1, s1)
      | (Inr nodes, t1, s1) \<Rightarrow>
          (if length nodes > 0 then
             (case InsertCrawledNodes (insert_err oc) nodes s1 of
                (Some err, s2) \<Rightarrow> (Some (Errorf ''error inserting nodes'' err), t1, s2)
              | (None, s2) \<Rightarrow>
                  (case Tx_Commit (commit_err oc) t1
                          (emit (LogInfo ''Nodes inserted'' (length nodes)) s2) of
                     (_, t3, s3) \<Rightarrow> (None, t3, s3)))
           else
             (case Tx_Commit (commit_err oc) t1 s1 of
                (_, t3, s3) \<Rightarrow> (None, t3, s3))))"

text \<open>
  \<^verbatim>\<open>transferNewNodes\<close>: when Begin fails the function returns before the defer
  statement; on every later return the deferred Rollback runs, and what it returns is
  dropped.
\<close>

definition transferNewNodes :: "outcomes \<Rightarrow> sys \<Rightarrow> error option \<times> sys" where
  "transferNewNodes oc s =
     (case crawlerDB_Begin (begin_err oc) s of
        (Inl err, s1) \<Rightarrow>
          (Some (Errorf ''error starting transaction to read nodes'' err), s1)
      | (Inr crawlerDBTx, s1) \<Rightarrow>
          (case transferNewNodes_body oc crawlerDBTx s1 of
             (r, t2, s2) \<Rightarrow> (r, snd (snd (Tx_Rollback (rollback_err oc) t2 s2)))))"

section \<open>newNodeDaemon\<close>

text \<open>
  A daemon loop either keeps running, in some state, or has panicked, which ends the
  process.
\<close>

datatype 'a run = Running 'a | Panicked error 'a

record daemon =
  retryTimeout :: duration
  world :: sys

text \<open>One pass through the body of the \<^verbatim>\<open>for\<close> loop of \<^verbatim>\<open>newNodeDaemon\<close>.\<close>

definition newNodeDaemon_cycle :: "outcomes \<Rightarrow> daemon \<Rightarrow> daemon run" where
  "newNodeDaemon_cycle oc d =
     (case transferNewNodes oc (world d) of
        (Some err, s) \<Rightarrow>
          Running \<lparr>retryTimeout = retryTimeout d * 2,
                   world = emit (Sleep (retryTimeout d))
                             (emit (LogError ''Failure in transferring new nodes'' err) s)\<rparr>
      | (None, s) \<Rightarrow>
          Running \<lparr>retryTimeout = Minute, world = emit (Sleep Second) s\<rparr>)"

text \<open>
  The loop has no exit. It is run here for as many cycles as there are entries in the
  list, which gives the outcomes of the database calls cycle by cycle.
\<close>

fun newNodeDaemon_loop :: "outcomes list \<Rightarrow> daemon \<Rightarrow> daemon run" where
  "newNodeDaemon_loop [] d = Running d"
| "newNodeDaemon_loop (oc # ocs) d =
     (case newNodeDaemon_cycle oc d of
        Running d' \<Rightarrow> newNodeDaemon_loop ocs d'
      | Panicked err d' \<Rightarrow> Panicked err d')"

definition newNodeDaemon :: "outcomes list \<Rightarrow> sys \<Rightarrow> daemon run" where
  "newNodeDaemon ocs s = newNodeDaemon_loop ocs \<lparr>retryTimeout = Minute, world = s\<rparr>"

section \<open>dropDaemon\<close>

text \<open>
  Go's \<^verbatim>\<open>time.Ticker\<close>, on a clock that counts nanoseconds. A ticker made at time
  \<open>now\<close> with period \<open>d\<close> fires at \<open>now + d\<close>, \<open>now + 2 * d\<close>, ...; its channel
  holds one tick, and ticks that find it full are dropped. \<^verbatim>\<open>time.NewTicker\<close> panics
  when \<open>d\<close> is not positive.
\<close>

record ticker =
  period :: int
  next_fire :: int

definition NewTicker :: "duration \<Rightarrow> int \<Rightarrow> error + ticker" where
  "NewTicker d now =
     (if sint d \<le> 0 then Inl (RuntimePanic ''non-positive interval for NewTicker'')
      else Inr \<lparr>period = sint d, next_fire = now + sint d\<rparr>)"

text \<open>
  The receive \<^verbatim>\<open><-ticker.C\<close> started at time \<open>c\<close>: when the ticker has fired since
  the last receive, the held tick is taken at once; otherwise the receive blocks until the
  next firing. The result is the time at which the receive returns.
\<close>

definition ticker_recv :: "int \<Rightarrow> ticker \<Rightarrow> int \<times> ticker" where
  "ticker_recv c tk =
     (if next_fire tk \<le> c then
        (c, tk\<lparr>next_fire := next_fire tk + ((c - next_fire tk) div period tk + 1) * period tk\<rparr>)
      else (next_fire tk, tk\<lparr>next_fire := next_fire tk + period tk\<rparr>))"

text \<open>
  Modelled from the spec: \<^verbatim>\<open>apidb.DropOldNodes\<close> (package \<^verbatim>\<open>pkg/apidb\<close>) is not
  among the sources. The spec: a single bulk delete that removes all records whose
  last-seen timestamp is older than the retention duration, the predicate being evaluated
  at delete time.
\<close>

definition DropOldNodes :: "error option \<Rightarrow> int \<Rightarrow> duration \<Rightarrow> sys \<Rightarrow> error option \<times> sys" where
  "DropOldNodes r now dropTimeout s =
     (case r of
        Some err \<Rightarrow> (Some err, emit (CallDropOldNodes now dropTimeout r) s)
      | None \<Rightarrow>
          (None, emit (CallDropOldNodes now dropTimeout r)
                   (s\<lparr>serving := filter (\<lambda>n. \<not> last_seen n < now - sint dropTimeout) (serving s)\<rparr>)))"

text \<open>
  What one eviction cycle meets: the error \<^verbatim>\<open>DropOldNodes\<close> returns, and the
  nanoseconds the call takes.
\<close>

record drop_outcome =
  drop_err :: "error option"
  drop_elapsed :: nat

record dropper =
  the_ticker :: ticker
  clock :: int
  db :: sys

text \<open>
  One pass through the body of the \<^verbatim>\<open>for\<close> loop of \<^verbatim>\<open>dropDaemon\<close>: wait for the
  tick, delete, panic on an error. The deferred \<^verbatim>\<open>ticker.Stop()\<close> runs when the panic
  unwinds the function.
\<close>

definition dropDaemon_cycle :: "duration \<Rightarrow> drop_outcome \<Rightarrow> dropper \<Rightarrow> dropper run" where
  "dropDaemon_cycle dropTimeout oc d =
     (case ticker_recv (clock d) (the_ticker d) of
        (c, tk) \<Rightarrow>
          (case DropOldNodes (drop_err oc) c dropTimeout (emit (TickerRecv c) (db d)) of
             (Some err, s) \<Rightarrow>
               Panicked err
                 \<lparr>the_ticker = tk, clock = c + int (drop_elapsed oc), db = emit TickerStop s\<rparr>
           | (None, s) \<Rightarrow>
               Running \<lparr>the_ticker = tk, clock = c + int (drop_elapsed oc), db = s\<rparr>))"

fun dropDaemon_loop :: "duration \<Rightarrow> drop_outcome list \<Rightarrow> dropper \<Rightarrow> dropper run" where
  "dropDaemon_loop dropTimeout [] d = Running d"
| "dropDaemon_loop dropTimeout (oc # ocs) d =
     (case dropDaemon_cycle dropTimeout oc d of
        Running d' \<Rightarrow> dropDaemon_loop dropTimeout ocs d'
      | Panicked err d' \<Rightarrow> Panicked err d')"

text \<open>
  \<^verbatim>\<open>dropDaemon\<close>, started at time \<open>now\<close> on the serving store of \<open>s\<close>, run for as
  many cycles as the list has entries.
\<close>

definition dropDaemon :: "drop_outcome list \<Rightarrow> int \<Rightarrow> sys \<Rightarrow> duration \<Rightarrow> dropper run" where
  "dropDaemon ocs now s dropTimeout =
     (case NewTicker (10 * Minute) now of
        Inl err \<Rightarrow> Panicked err \<lparr>the_ticker = \<lparr>period = 0, next_fire = now\<rparr>, clock = now, db = s\<rparr>
      | Inr tk \<Rightarrow> dropDaemon_loop dropTimeout ocs \<lparr>the_ticker = tk, clock = now, db = s\<rparr>)"

section \<open>Reading the record of calls\<close>

text \<open>The events a run has added to the record.\<close>

definition new_events :: "sys \<Rightarrow> sys \<Rightarrow> event list" where
  "new_events s s' = drop (length (trace s)) (trace s')"

fun is_commit :: "event \<Rightarrow> bool" where
  "is_commit (CallCommit r) = True"
| "is_commit e = False"

fun is_insert :: "event \<Rightarrow> bool" where
  "is_insert (CallInsertCrawledNodes ns r) = True"
| "is_insert e = False"

text \<open>The times of the deletes, and of the ticks received, in a list of events.\<close>

fun delete_times :: "event list \<Rightarrow> int list" where
  "delete_times [] = []"
| "delete_times (CallDropOldNodes t dt r # es) = t # delete_times es"
| "delete_times (e # es) = delete_times es"

fun tick_times :: "event list \<Rightarrow> int list" where
  "tick_times [] = []"
| "tick_times (TickerRecv t # es) = t # tick_times es"
| "tick_times (e # es) = tick_times es"

text \<open>The identifiers that have a row in the serving store.\<close>

definition served_ids :: "sys \<Rightarrow> nat set" where
  "served_ids s = node_id ` set (serving s)"

text \<open>The events of a cycle that come before its first Commit.\<close>

definition before_commit :: "event list \<Rightarrow> event list" where
  "before_commit evs = takeWhile (\<lambda>e. \<not> is_commit e) evs"

text \<open>
  The state a daemon loop is in, running or panicked.
\<close>

fun state_of :: "'a run \<Rightarrow> 'a" where
  "state_of (Running d) = d"
| "state_of (Panicked err d) = d"

text \<open>
  The events of eviction cycles that all succeed: each tick received at a time \<open>t\<close> is
  followed by the delete issued at \<open>t\<close>.
\<close>

definition tick_events :: "duration \<Rightarrow> int list \<Rightarrow> event list" where
  "tick_events dropTimeout ts =
     concat (map (\<lambda>t. [TickerRecv t, CallDropOldNodes t dropTimeout None]) ts)"

section \<open>Example inputs\<close>

text \<open>
  Two peer records, a transient store that holds both, an idle one, and the outcomes of a
  cycle in which every call succeeds, in which the transient store is locked, in which the
  serving-store write fails, in which the commit fails, and in which the serving-store
  write fails and the driver then refuses the rollback, and in which no transaction can be
  started because one is still open on the connection. For the eviction daemon: a
  retention of one day, a delete that succeeds after some nanoseconds, one that fails, and
  the daemon's state right after its ticker was made at time 0.
\<close>

definition node_A :: node where
  "node_A = \<lparr>node_id = 1, address = ''10.0.0.1:30303'', first_seen = 100, last_seen = 100\<rparr>"

definition node_B :: node where
  "node_B = \<lparr>node_id = 2, address = ''10.0.0.2:30303'', first_seen = 150, last_seen = 150\<rparr>"

definition store2 :: sys where
  "store2 = \<lparr>pending = [node_A, node_B], serving = [], open_tx = None, trace = []\<rparr>"

definition store0 :: sys where
  "store0 = \<lparr>pending = [], serving = [node_A], open_tx = None, trace = []\<rparr>"

definition all_ok :: outcomes where
  "all_ok = \<lparr>begin_err = None, read_err = None, insert_err = None, commit_err = None,
      rollback_err = None\<rparr>"

definition locked :: outcomes where
  "locked = all_ok\<lparr>begin_err := Some (DriverError ''database is locked'')\<rparr>"

definition insert_fails :: outcomes where
  "insert_fails = all_ok\<lparr>insert_err := Some (DriverError ''disk I/O error'')\<rparr>"

definition commit_fails :: outcomes where
  "commit_fails = all_ok\<lparr>commit_err := Some (DriverError ''database is locked'')\<rparr>"

definition stuck :: outcomes where
  "stuck =
     all_ok\<lparr>begin_err := Some (DriverError ''cannot start a transaction within a transaction'')\<rparr>"

definition rollback_fails :: outcomes where
  "rollback_fails =
     insert_fails\<lparr>rollback_err := Some (DriverError ''cannot rollback - no transaction is active'')\<rparr>"

definition day :: duration where
  "day = 86400 * Second"

definition drop_ok :: "nat \<Rightarrow> drop_outcome" where
  "drop_ok ns = \<lparr>drop_err = None, drop_elapsed = ns\<rparr>"

definition drop_fails :: drop_outcome where
  "drop_fails = \<lparr>drop_err = Some (DriverError ''database disk image is malformed''), drop_elapsed = 7\<rparr>"

definition dropper0 :: dropper where
  "dropper0 = \<lparr>the_ticker = \<lparr>period = 600000000000, next_fire = 600000000000\<rparr>, clock = 0, db = store0\<rparr>"

lemmas example_defs = node_A_def node_B_def store2_def store0_def all_ok_def locked_def
  insert_fails_def commit_fails_def rollback_fails_def stuck_def

section \<open>The paths through transferNewNodes\<close>

lemma filter_not_in_self: "filter (\<lambda>n. n \<notin> set xs) xs = []"
  by (simp add: filter_empty_conv)

lemmas call_defs = crawlerDB_Begin_def ReadAndDeleteUnseenNodes_def InsertCrawledNodes_def
  Tx_Commit_def Tx_Rollback_def emit_def removed_in_tx_def unseen_def

lemma transferNewNodes_begin_fails:
  assumes "begin_err oc = Some e"
  shows "transferNewNodes oc s =
    (Some (Errorf ''error starting transaction to read nodes'' e),
     s\<lparr>trace := trace s @ [CallBegin (Some e)]\<rparr>)"
  using assms by (simp add: transferNewNodes_def crawlerDB_Begin_def emit_def)

lemma transferNewNodes_read_fails:
  assumes "begin_err oc = None" "read_err oc = Some e"
  shows "transferNewNodes oc s =
    (Some (Errorf ''error reading nodes'' e),
     s\<lparr>open_tx := None,
       trace := trace s @
        [CallBegin None, CallReadAndDeleteUnseenNodes (Some e),
         CallRollback (rollback_err oc)]\<rparr>)"
  using assms
  by (simp add: transferNewNodes_def transferNewNodes_body_def call_defs)

lemma transferNewNodes_insert_fails:
  assumes "begin_err oc = None" "read_err oc = None" "pending s \<noteq> []" "insert_err oc = Some e"
  shows "transferNewNodes oc s =
    (Some (Errorf ''error inserting nodes'' e),
     s\<lparr>open_tx := None,
       trace := trace s @
        [CallBegin None, CallReadAndDeleteUnseenNodes None,
         CallInsertCrawledNodes (pending s) (Some e), CallRollback (rollback_err oc)]\<rparr>)"
  using assms
  by (simp add: transferNewNodes_def transferNewNodes_body_def call_defs)

lemma transferNewNodes_commit_ok:
  assumes "begin_err oc = None" "read_err oc = None" "pending s \<noteq> []" "insert_err oc = None"
    "commit_err oc = None"
  shows "transferNewNodes oc s =
    (None,
     s\<lparr>pending := [],
       serving := foldl (\<lambda>rows n. upsert n rows) (serving s) (pending s),
       open_tx := None,
       trace := trace s @
        [CallBegin None, CallReadAndDeleteUnseenNodes None,
         CallInsertCrawledNodes (pending s) None, LogInfo ''Nodes inserted'' (length (pending s)),
         CallCommit None, CallRollback (Some ErrTxDone)]\<rparr>)"
  using assms
  by (simp add: transferNewNodes_def transferNewNodes_body_def call_defs filter_not_in_self)

lemma transferNewNodes_commit_fails:
  assumes "begin_err oc = None" "read_err oc = None" "pending s \<noteq> []" "insert_err oc = None"
    "commit_err oc = Some e"
  shows "transferNewNodes oc s =
    (None,
     s\<lparr>serving := foldl (\<lambda>rows n. upsert n rows) (serving s) (pending s),
       open_tx := Some (pending s),
       trace := trace s @
        [CallBegin None, CallReadAndDeleteUnseenNodes None,
         CallInsertCrawledNodes (pending s) None, LogInfo ''Nodes inserted'' (length (pending s)),
         CallCommit (Some e), CallRollback (Some ErrTxDone)]\<rparr>)"
  using assms
  by (simp add: transferNewNodes_def transferNewNodes_body_def call_defs)

lemma transferNewNodes_empty_batch:
  assumes "begin_err oc = None" "read_err oc = None" "pending s = []"
  shows "transferNewNodes oc s =
    (None,
     s\<lparr>open_tx := (case commit_err oc of None \<Rightarrow> None | Some e \<Rightarrow> Some []),
       trace := trace s @
        [CallBegin None, CallReadAndDeleteUnseenNodes None,
         CallCommit (commit_err oc), CallRollback (Some ErrTxDone)]\<rparr>)"
  using assms
  by (cases "commit_err oc")
    (simp_all add: transferNewNodes_def transferNewNodes_body_def call_defs)

lemma ids_upsert: "node_id ` set (upsert n rs) = insert (node_id n) (node_id ` set rs)"
  by (induction rs) auto

lemma ids_upsert_all:
  "node_id ` set (foldl (\<lambda>rows n. upsert n rows) rs ns) = node_id ` set rs \<union> node_id ` set ns"
  by (induction ns arbitrary: rs) (auto simp: ids_upsert)

lemma new_events_append [simp]:
  "trace s' = trace s @ evs \<Longrightarrow> new_events s s' = evs"
  by (simp add: new_events_def)

section \<open>The loop of newNodeDaemon\<close>

lemma newNodeDaemon_cycle_running:
  "newNodeDaemon_cycle oc d = Running (state_of (newNodeDaemon_cycle oc d))"
proof (cases "transferNewNodes oc (world d)")
  case (Pair r s')
  then show ?thesis
    by (cases r) (simp_all add: newNodeDaemon_cycle_def)
qed

lemma newNodeDaemon_loop_Cons:
  "newNodeDaemon_loop (oc # ocs) d =
     newNodeDaemon_loop ocs (state_of (newNodeDaemon_cycle oc d))"
proof -
  obtain d1 where "newNodeDaemon_cycle oc d = Running d1"
    using newNodeDaemon_cycle_running by blast
  then show ?thesis by simp
qed

lemma newNodeDaemon_loop_snoc:
  "newNodeDaemon_loop (ocs @ [oc]) d =
     newNodeDaemon_cycle oc (state_of (newNodeDaemon_loop ocs d))"
proof (induction ocs arbitrary: d)
  case Nil
  have "newNodeDaemon_loop [oc] d = Running (state_of (newNodeDaemon_cycle oc d))"
    by (simp only: newNodeDaemon_loop_Cons newNodeDaemon_loop.simps)
  then show ?case
    using newNodeDaemon_cycle_running [of oc d] by simp
next
  case (Cons a ocs)
  then show ?case
    by (simp only: append_Cons newNodeDaemon_loop_Cons)
qed

lemma sint_double:
  fixes t :: duration
  assumes "- (2 ^ 62) \<le> sint t" "sint t < 2 ^ 62"
  shows "sint (t * 2) = 2 * sint t"
proof -
  have "sint (t * 2) = signed_take_bit 63 (sint t * 2)"
    by (simp add: sint_word_ariths)
  also have "\<dots> = sint t * 2"
    using assms by (intro signed_take_bit_int_eq_self) simp_all
  finally show ?thesis by simp
qed

lemma timer_after_lock_failures:
  assumes "\<forall>oc \<in> set ocs. begin_err oc \<noteq> None"
  shows "retryTimeout (state_of (newNodeDaemon_loop ocs d)) = retryTimeout d * 2 ^ length ocs"
  using assms
proof (induction ocs arbitrary: d)
  case Nil
  then show ?case by simp
next
  case (Cons oc ocs)
  then obtain e where b: "begin_err oc = Some e" by auto
  from Cons show ?case
    by (simp add: newNodeDaemon_cycle_def transferNewNodes_begin_fails [OF b] mult.assoc)
qed

section \<open>The ticker and the loop of dropDaemon\<close>

lemma dropDaemon_cycle_fails:
  assumes "drop_err oc = Some e"
  shows "dropDaemon_cycle dt oc d =
    Panicked e
      \<lparr>the_ticker = snd (ticker_recv (clock d) (the_ticker d)),
       clock = fst (ticker_recv (clock d) (the_ticker d)) + int (drop_elapsed oc),
       db = (db d)\<lparr>trace := trace (db d) @
         [TickerRecv (fst (ticker_recv (clock d) (the_ticker d))),
          CallDropOldNodes (fst (ticker_recv (clock d) (the_ticker d))) dt (Some e),
          TickerStop]\<rparr>\<rparr>"
  using assms
  by (cases "ticker_recv (clock d) (the_ticker d)")
    (simp add: dropDaemon_cycle_def DropOldNodes_def emit_def)

lemma dropDaemon_cycle_ok:
  assumes "drop_err oc = None"
  shows "dropDaemon_cycle dt oc d =
    Running
      \<lparr>the_ticker = snd (ticker_recv (clock d) (the_ticker d)),
       clock = fst (ticker_recv (clock d) (the_ticker d)) + int (drop_elapsed oc),
       db = (db d)\<lparr>serving :=
           filter (\<lambda>n. \<not> last_seen n < fst (ticker_recv (clock d) (the_ticker d)) - sint dt)
             (serving (db d)),
         trace := trace (db d) @
         [TickerRecv (fst (ticker_recv (clock d) (the_ticker d))),
          CallDropOldNodes (fst (ticker_recv (clock d) (the_ticker d))) dt None]\<rparr>\<rparr>"
  using assms
  by (cases "ticker_recv (clock d) (the_ticker d)")
    (simp add: dropDaemon_cycle_def DropOldNodes_def emit_def)

lemma ticker_recv_bounds:
  assumes "0 < period tk"
  shows "next_fire tk \<le> fst (ticker_recv c tk)"
    and "next_fire tk + period tk \<le> next_fire (snd (ticker_recv c tk))"
    and "period (snd (ticker_recv c tk)) = period tk"
proof -
  show "next_fire tk \<le> fst (ticker_recv c tk)"
    by (simp add: ticker_recv_def)
  show "period (snd (ticker_recv c tk)) = period tk"
    by (simp add: ticker_recv_def)
  show "next_fire tk + period tk \<le> next_fire (snd (ticker_recv c tk))"
  proof (cases "next_fire tk \<le> c")
    case True
    with assms have "0 \<le> (c - next_fire tk) div period tk"
      by (simp add: pos_imp_zdiv_nonneg_iff)
    with assms have "0 \<le> ((c - next_fire tk) div period tk) * period tk"
      by simp
    with True show ?thesis
      by (simp add: ticker_recv_def algebra_simps)
  next
    case False
    then show ?thesis by (simp add: ticker_recv_def)
  qed
qed

lemma tick_events_Cons:
  "tick_events dt (t # ts) = TickerRecv t # CallDropOldNodes t dt None # tick_events dt ts"
  by (simp add: tick_events_def)

lemma times_tick_events:
  "delete_times (tick_events dt ts) = ts" "tick_times (tick_events dt ts) = ts"
  by (induction ts) (simp_all add: tick_events_def)

lemma dropDaemon_loop_ticks:
  assumes "\<forall>oc \<in> set ocs. drop_err oc = None"
    and "0 < period (the_ticker d)" and "L \<le> next_fire (the_ticker d)"
  shows "\<exists>d' ts. dropDaemon_loop dt ocs d = Running d' \<and> length ts = length ocs
      \<and> trace (db d') = trace (db d) @ tick_events dt ts
      \<and> (\<forall>i < length ts. L + int i * period (the_ticker d) \<le> ts ! i)"
  using assms
proof (induction ocs arbitrary: d L)
  case Nil
  then show ?case by (simp add: tick_events_def)
next
  case (Cons oc ocs)
  let ?P = "period (the_ticker d)"
  let ?c = "fst (ticker_recv (clock d) (the_ticker d))"
  let ?tk = "snd (ticker_recv (clock d) (the_ticker d))"
  from Cons.prems have ok: "drop_err oc = None" by simp
  note cyc = dropDaemon_cycle_ok [OF ok, of dt d]
  define d1 where "d1 = state_of (dropDaemon_cycle dt oc d)"
  from cyc have run1: "dropDaemon_cycle dt oc d = Running d1"
    and tk1: "the_ticker d1 = ?tk"
    and tr1: "trace (db d1) = trace (db d) @ [TickerRecv ?c, CallDropOldNodes ?c dt None]"
    by (simp_all add: d1_def)
  from Cons.prems ticker_recv_bounds [of "the_ticker d" "clock d"]
  have c_ge: "L \<le> ?c" and nf: "L + ?P \<le> next_fire ?tk" and per: "period ?tk = ?P"
    by simp_all
  from Cons.prems per tk1 have "\<forall>oc \<in> set ocs. drop_err oc = None" "0 < period (the_ticker d1)"
    by simp_all
  moreover from nf tk1 have "L + ?P \<le> next_fire (the_ticker d1)" by simp
  ultimately obtain d' ts where rest: "dropDaemon_loop dt ocs d1 = Running d'"
    and len: "length ts = length ocs"
    and tr: "trace (db d') = trace (db d1) @ tick_events dt ts"
    and bnd: "\<forall>i < length ts. (L + ?P) + int i * period (the_ticker d1) \<le> ts ! i"
    using Cons.IH [of d1 "L + ?P"] by blast
  have "\<forall>i < length (?c # ts). L + int i * ?P \<le> (?c # ts) ! i"
  proof (intro allI impI)
    fix i assume i: "i < length (?c # ts)"
    show "L + int i * ?P \<le> (?c # ts) ! i"
    proof (cases i)
      case 0
      with c_ge show ?thesis by simp
    next
      case (Suc j)
      with i bnd have "(L + ?P) + int j * period (the_ticker d1) \<le> ts ! j" by simp
      with Suc tk1 per show ?thesis by (simp add: algebra_simps)
    qed
  qed
  moreover from run1 rest have "dropDaemon_loop dt (oc # ocs) d = Running d'" by simp
  moreover from tr tr1 have "trace (db d') = trace (db d) @ tick_events dt (?c # ts)"
    by (simp add: tick_events_Cons)
  moreover from len have "length (?c # ts) = length (oc # ocs)" by simp
  ultimately show ?case by blast
qed

lemma sint_ten_minutes: "sint (10 * Minute) = 600000000000"
  by (simp add: Minute_def Second_def)

section \<open>The claims\<close>

text \<open>
  C1. In every synchronization cycle the records extracted from the transient store are
  either all written to the serving store or none of them is removed from the transient
  store. A cycle with a non-empty batch calls Commit only after the insert of that batch
  into the serving store has returned nil. On every error return no Commit has been called
  and the committed content of the transient store is what it was; when the transaction
  had been opened, the last call is the deferred Rollback, made on the still open
  transaction (it reaches the driver, whatever the driver answers), after which no
  transaction is open and every record of the store is pending again.
\<close>

theorem transferNewNodes_all_or_none:
  assumes run: "transferNewNodes oc s = (r, s')"
  shows "(pending s' = pending s \<or> node_id ` set (pending s) \<subseteq> served_ids s')
    \<and> ((\<exists>e \<in> set (new_events s s'). is_commit e) \<and> pending s \<noteq> []
          \<longrightarrow> CallInsertCrawledNodes (pending s) None \<in> set (before_commit (new_events s s')))
    \<and> (r \<noteq> None \<longrightarrow> pending s' = pending s \<and> \<not> (\<exists>e \<in> set (new_events s s'). is_commit e))
    \<and> (r \<noteq> None \<and> begin_err oc = None \<longrightarrow>
          last (new_events s s') = CallRollback (rollback_err oc)
          \<and> open_tx s' = None \<and> unseen s' = pending s)"
proof (cases "begin_err oc")
  case (Some e)
  from run transferNewNodes_begin_fails [OF Some, of s] Some show ?thesis
    by (auto simp: before_commit_def)
next
  case None
  note b = this
  show ?thesis
  proof (cases "read_err oc")
    case (Some e)
    from run transferNewNodes_read_fails [OF b Some, of s] show ?thesis
      by (auto simp: before_commit_def unseen_def removed_in_tx_def)
  next
    case None
    note rd = this
    show ?thesis
    proof (cases "pending s = []")
      case True
      from run transferNewNodes_empty_batch [OF b rd True] True show ?thesis
        by (auto simp: before_commit_def)
    next
      case False
      note ne = this
      show ?thesis
      proof (cases "insert_err oc")
        case (Some e)
        from run transferNewNodes_insert_fails [OF b rd ne Some] show ?thesis
          by (auto simp: before_commit_def unseen_def removed_in_tx_def)
      next
        case None
        note ins = this
        show ?thesis
        proof (cases "commit_err oc")
          case None
          from run transferNewNodes_commit_ok [OF b rd ne ins None] show ?thesis
            by (auto simp: before_commit_def served_ids_def ids_upsert_all)
        next
          case (Some e)
          from run transferNewNodes_commit_fails [OF b rd ne ins Some] show ?thesis
            by (auto simp: before_commit_def served_ids_def ids_upsert_all)
        qed
      qed
    qed
  qed
qed

theorem transferNewNodes_all_or_none_witness:
  "node_id ` set (pending store2) \<subseteq> served_ids (snd (transferNewNodes all_ok store2))
   \<and> CallInsertCrawledNodes (pending store2) None
       \<in> set (before_commit (new_events store2 (snd (transferNewNodes all_ok store2))))
   \<and> pending (snd (transferNewNodes rollback_fails store2)) = pending store2
   \<and> last (new_events store2 (snd (transferNewNodes rollback_fails store2))) =
       CallRollback (Some (DriverError ''cannot rollback - no transaction is active''))
   \<and> open_tx (snd (transferNewNodes rollback_fails store2)) = None
   \<and> unseen (snd (transferNewNodes rollback_fails store2)) = [node_A, node_B]"
proof -
  let ?e = "DriverError ''disk I/O error''"
  let ?rb = "DriverError ''cannot rollback - no transaction is active''"
  have ok: "transferNewNodes all_ok store2 =
      (None, store2\<lparr>pending := [],
         serving := foldl (\<lambda>rows n. upsert n rows) (serving store2) (pending store2),
         open_tx := None,
         trace := trace store2 @
           [CallBegin None, CallReadAndDeleteUnseenNodes None,
            CallInsertCrawledNodes (pending store2) None,
            LogInfo ''Nodes inserted'' (length (pending store2)),
            CallCommit None, CallRollback (Some ErrTxDone)]\<rparr>)"
    by (rule transferNewNodes_commit_ok) (simp_all add: example_defs)
  have bad: "transferNewNodes rollback_fails store2 =
      (Some (Errorf ''error inserting nodes'' ?e),
       store2\<lparr>open_tx := None,
         trace := trace store2 @
         [CallBegin None, CallReadAndDeleteUnseenNodes None,
          CallInsertCrawledNodes (pending store2) (Some ?e),
          CallRollback (rollback_err rollback_fails)]\<rparr>)"
    by (rule transferNewNodes_insert_fails) (simp_all add: example_defs)
  have b: "begin_err rollback_fails = None" "rollback_err rollback_fails = Some ?rb"
    by (simp_all add: example_defs)
  from transferNewNodes_all_or_none [OF ok] transferNewNodes_all_or_none [OF bad] b
  show ?thesis
    by (simp add: ok bad before_commit_def) (simp add: example_defs)
qed

text \<open>
  C2. In every synchronization cycle in which the serving-store write returns an error,
  \<^verbatim>\<open>transferNewNodes\<close> returns that error (wrapped) and Commit has not been called. The
  last call is the Rollback of the still open transaction, which reaches the driver; after
  it no transaction is open at the transient store, and both stores are as they were before
  the cycle: the batch that was extracted is the batch that is pending, the same list of
  records.
\<close>

theorem insert_error_rolls_back:
  assumes run: "transferNewNodes oc s = (r, s')"
    and ins: "CallInsertCrawledNodes ns (Some e) \<in> set (new_events s s')"
  shows "r = Some (Errorf ''error inserting nodes'' e)
    \<and> \<not> (\<exists>ev \<in> set (new_events s s'). is_commit ev)
    \<and> last (new_events s s') = CallRollback (rollback_err oc)
    \<and> open_tx s' = None
    \<and> pending s' = pending s \<and> unseen s' = pending s
    \<and> serving s' = serving s \<and> ns = pending s"
proof (cases "begin_err oc")
  case (Some e0)
  from run ins transferNewNodes_begin_fails [OF Some, of s] show ?thesis
    by auto
next
  case None
  note b = this
  show ?thesis
  proof (cases "read_err oc")
    case (Some e0)
    from run ins transferNewNodes_read_fails [OF b Some, of s] show ?thesis
      by auto
  next
    case None
    note rd = this
    show ?thesis
    proof (cases "pending s = []")
      case True
      from run ins transferNewNodes_empty_batch [OF b rd True] show ?thesis
        by auto
    next
      case False
      note ne = this
      show ?thesis
      proof (cases "insert_err oc")
        case (Some e0)
        from run ins transferNewNodes_insert_fails [OF b rd ne Some] show ?thesis
          by (auto simp: unseen_def removed_in_tx_def)
      next
        case None
        note ok = this
        show ?thesis
        proof (cases "commit_err oc")
          case None
          from run ins transferNewNodes_commit_ok [OF b rd ne ok None] show ?thesis
            by auto
        next
          case (Some e0)
          from run ins transferNewNodes_commit_fails [OF b rd ne ok Some] show ?thesis
            by auto
        qed
      qed
    qed
  qed
qed

theorem insert_error_rolls_back_witness:
  "fst (transferNewNodes rollback_fails store2)
     = Some (Errorf ''error inserting nodes'' (DriverError ''disk I/O error''))
   \<and> last (new_events store2 (snd (transferNewNodes rollback_fails store2))) =
       CallRollback (Some (DriverError ''cannot rollback - no transaction is active''))
   \<and> open_tx (snd (transferNewNodes rollback_fails store2)) = None
   \<and> pending (snd (transferNewNodes rollback_fails store2)) = [node_A, node_B]
   \<and> last (new_events store2 (snd (transferNewNodes insert_fails store2))) = CallRollback None"
proof -
  let ?e = "DriverError ''disk I/O error''"
  let ?evs = "\<lambda>oc. [CallBegin None, CallReadAndDeleteUnseenNodes None,
          CallInsertCrawledNodes (pending store2) (Some ?e), CallRollback (rollback_err oc)]"
  have bad: "transferNewNodes rollback_fails store2 =
      (Some (Errorf ''error inserting nodes'' ?e),
       store2\<lparr>open_tx := None, trace := trace store2 @ ?evs rollback_fails\<rparr>)"
    by (rule transferNewNodes_insert_fails) (simp_all add: example_defs)
  have bad2: "transferNewNodes insert_fails store2 =
      (Some (Errorf ''error inserting nodes'' ?e),
       store2\<lparr>open_tx := None, trace := trace store2 @ ?evs insert_fails\<rparr>)"
    by (rule transferNewNodes_insert_fails) (simp_all add: example_defs)
  have ins: "CallInsertCrawledNodes (pending store2) (Some ?e)
      \<in> set (new_events store2
           (store2\<lparr>open_tx := None, trace := trace store2 @ ?evs oc\<rparr>))" for oc
    by simp
  from insert_error_rolls_back [OF bad ins] insert_error_rolls_back [OF bad2 ins]
  show ?thesis
    by (simp add: bad bad2) (simp add: example_defs)
qed

text \<open>
  C3. The retry timer of \<^verbatim>\<open>newNodeDaemon\<close> starts at the base interval of one minute.
  Every cycle of a run continues from the state the cycles before it have left. After a
  cycle in which \<^verbatim>\<open>transferNewNodes\<close> returns an error the daemon logs the error, sleeps
  for the current value of the timer and then multiplies the timer by two (in 64-bit
  arithmetic); after a cycle in which it returns nil the timer is the base interval again.
\<close>

theorem retry_timer_backoff:
  "newNodeDaemon [] s = Running \<lparr>retryTimeout = Minute, world = s\<rparr>
   \<and> newNodeDaemon (ocs @ [oc]) s = newNodeDaemon_cycle oc (state_of (newNodeDaemon ocs s))
   \<and> (\<forall>err s'. transferNewNodes oc (world d) = (Some err, s') \<longrightarrow>
        newNodeDaemon_cycle oc d =
          Running \<lparr>retryTimeout = retryTimeout d * 2,
                   world = s'\<lparr>trace := trace s' @
                     [LogError ''Failure in transferring new nodes'' err,
                      Sleep (retryTimeout d)]\<rparr>\<rparr>)
   \<and> (\<forall>s'. transferNewNodes oc (world d) = (None, s') \<longrightarrow>
        newNodeDaemon_cycle oc d =
          Running \<lparr>retryTimeout = Minute, world = s'\<lparr>trace := trace s' @ [Sleep Second]\<rparr>\<rparr>)"
  by (simp add: newNodeDaemon_def newNodeDaemon_loop_snoc)
    (simp add: newNodeDaemon_cycle_def emit_def)

theorem retry_timer_backoff_witness:
  "newNodeDaemon [insert_fails, insert_fails, all_ok] store2 =
     Running \<lparr>retryTimeout = Minute,
       world = \<lparr>pending = [], serving = [node_A, node_B], open_tx = None,
         trace =
          [CallBegin None, CallReadAndDeleteUnseenNodes None,
           CallInsertCrawledNodes [node_A, node_B] (Some (DriverError ''disk I/O error'')),
           CallRollback None,
           LogError ''Failure in transferring new nodes''
             (Errorf ''error inserting nodes'' (DriverError ''disk I/O error'')),
           Sleep Minute,
           CallBegin None, CallReadAndDeleteUnseenNodes None,
           CallInsertCrawledNodes [node_A, node_B] (Some (DriverError ''disk I/O error'')),
           CallRollback None,
           LogError ''Failure in transferring new nodes''
             (Errorf ''error inserting nodes'' (DriverError ''disk I/O error'')),
           Sleep (Minute * 2),
           CallBegin None, CallReadAndDeleteUnseenNodes None,
           CallInsertCrawledNodes [node_A, node_B] None, LogInfo ''Nodes inserted'' 2,
           CallCommit None, CallRollback (Some ErrTxDone),
           Sleep Second]\<rparr>\<rparr>"
proof -
  let ?e = "DriverError ''disk I/O error''"
  have h: "begin_err insert_fails = None" "read_err insert_fails = None"
    "insert_err insert_fails = Some ?e"
    "begin_err all_ok = None" "read_err all_ok = None" "insert_err all_ok = None"
    "commit_err all_ok = None" "rollback_err insert_fails = None"
    by (simp_all add: example_defs)
  note bad = transferNewNodes_insert_fails [OF h(1) h(2) _ h(3)]
  note good = transferNewNodes_commit_ok [OF h(4) h(5) _ h(6) h(7)]
  let ?d0 = "\<lparr>retryTimeout = Minute, world = store2\<rparr>"
  have c1: "newNodeDaemon_cycle insert_fails ?d0 =
      Running \<lparr>retryTimeout = Minute * 2,
        world = store2\<lparr>trace :=
          [CallBegin None, CallReadAndDeleteUnseenNodes None,
           CallInsertCrawledNodes [node_A, node_B] (Some ?e), CallRollback None,
           LogError ''Failure in transferring new nodes'' (Errorf ''error inserting nodes'' ?e),
           Sleep Minute]\<rparr>\<rparr>"
    using retry_timer_backoff [where oc = insert_fails and d = ?d0]
    by (simp add: bad store2_def h(8))
  let ?d1 = "\<lparr>retryTimeout = Minute * 2,
        world = store2\<lparr>trace :=
          [CallBegin None, CallReadAndDeleteUnseenNodes None,
           CallInsertCrawledNodes [node_A, node_B] (Some ?e), CallRollback None,
           LogError ''Failure in transferring new nodes'' (Errorf ''error inserting nodes'' ?e),
           Sleep Minute]\<rparr>\<rparr>"
  have c2: "newNodeDaemon_cycle insert_fails ?d1 =
      Running \<lparr>retryTimeout = Minute * 2 * 2,
        world = store2\<lparr>trace :=
          [CallBegin None, CallReadAndDeleteUnseenNodes None,
           CallInsertCrawledNodes [node_A, node_B] (Some ?e), CallRollback None,
           LogError ''Failure in transferring new nodes'' (Errorf ''error inserting nodes'' ?e),
           Sleep Minute,
           CallBegin None, CallReadAndDeleteUnseenNodes None,
           CallInsertCrawledNodes [node_A, node_B] (Some ?e), CallRollback None,
           LogError ''Failure in transferring new nodes'' (Errorf ''error inserting nodes'' ?e),
           Sleep (Minute * 2)]\<rparr>\<rparr>"
    using retry_timer_backoff [where oc = insert_fails and d = ?d1]
    by (simp add: bad store2_def h(8))
  show ?thesis
    by (simp add: newNodeDaemon_def c1 c2)
      (simp add: newNodeDaemon_cycle_def good emit_def store2_def node_A_def node_B_def)
qed

text \<open>
  C4 as stated fails: starting from one minute, the 28th consecutive failure doubles
  8053063680000000000 ns to a value that no longer fits 63 bits, and the timer becomes
  negative.
\<close>

theorem backoff_wraps_at_28th_failure:
  "sint (retryTimeout (state_of (newNodeDaemon (replicate 27 locked) store2))) = 8053063680000000000
   \<and> sint (retryTimeout (state_of (newNodeDaemon (replicate 28 locked) store2))) = - 2340616713709551616
   \<and> \<not> sint (retryTimeout (state_of (newNodeDaemon (replicate 27 locked) store2)))
        < sint (retryTimeout (state_of (newNodeDaemon (replicate 28 locked) store2)))"
proof -
  have l: "\<forall>oc \<in> set (replicate n locked). begin_err oc \<noteq> None" for n
    by (simp add: example_defs)
  show ?thesis
    by (simp add: newNodeDaemon_def timer_after_lock_failures [OF l] Minute_def Second_def)
qed

text \<open>
  C4, amended. In a failed synchronization cycle whose backoff interval is positive and
  below \<open>2 ^ 62\<close> nanoseconds, the interval used for the next failure is exactly twice
  the current one, and so strictly greater.
\<close>

theorem backoff_doubles_below_overflow:
  assumes fail: "transferNewNodes oc (world d) = (Some err, s')"
    and pos: "0 < sint (retryTimeout d)" and small: "sint (retryTimeout d) < 2 ^ 62"
  shows "sint (retryTimeout (state_of (newNodeDaemon_cycle oc d))) = 2 * sint (retryTimeout d)
    \<and> sint (retryTimeout d) < sint (retryTimeout (state_of (newNodeDaemon_cycle oc d)))"
proof -
  from fail have "retryTimeout (state_of (newNodeDaemon_cycle oc d)) = retryTimeout d * 2"
    by (simp add: newNodeDaemon_cycle_def)
  moreover from pos small have "sint (retryTimeout d * 2) = 2 * sint (retryTimeout d)"
    by (intro sint_double) simp_all
  ultimately show ?thesis using pos by simp
qed

theorem backoff_doubles_below_overflow_witness:
  "sint (retryTimeout (state_of (newNodeDaemon_cycle locked \<lparr>retryTimeout = Minute, world = store2\<rparr>)))
     = 120000000000"
proof -
  let ?d = "\<lparr>retryTimeout = Minute, world = store2\<rparr>"
  have b: "begin_err locked = Some (DriverError ''database is locked'')"
    by (simp add: example_defs)
  have fail: "transferNewNodes locked (world ?d) =
      (Some (Errorf ''error starting transaction to read nodes'' (DriverError ''database is locked'')),
       (world ?d)\<lparr>trace := trace (world ?d) @ [CallBegin (Some (DriverError ''database is locked''))]\<rparr>)"
    by (rule transferNewNodes_begin_fails [OF b])
  have pos: "0 < sint (retryTimeout ?d)" and small: "sint (retryTimeout ?d) < 2 ^ 62"
    by (simp_all add: Minute_def Second_def)
  from backoff_doubles_below_overflow [OF fail pos small] show ?thesis
    by (simp add: Minute_def Second_def)
qed

text \<open>
  C5. When \<^verbatim>\<open>crawlerDB.Begin\<close> returns an error, \<^verbatim>\<open>transferNewNodes\<close> returns it
  (wrapped) at once: Begin is the only call of the cycle, no record is read and neither
  store changes. The daemon does not panic: it logs the error, sleeps for the retry
  timeout, doubles it and goes on with the next cycle.
\<close>

theorem begin_error_aborts_cycle:
  assumes b: "begin_err oc = Some e"
  shows "transferNewNodes oc s =
      (Some (Errorf ''error starting transaction to read nodes'' e),
       emit (CallBegin (Some e)) s)
    \<and> new_events s (snd (transferNewNodes oc s)) = [CallBegin (Some e)]
    \<and> pending (snd (transferNewNodes oc s)) = pending s
    \<and> serving (snd (transferNewNodes oc s)) = serving s
    \<and> newNodeDaemon_cycle oc d =
        Running \<lparr>retryTimeout = retryTimeout d * 2,
                 world = (world d)\<lparr>trace := trace (world d) @
                   [CallBegin (Some e),
                    LogError ''Failure in transferring new nodes''
                      (Errorf ''error starting transaction to read nodes'' e),
                    Sleep (retryTimeout d)]\<rparr>\<rparr>
    \<and> newNodeDaemon_loop (oc # ocs) d =
        newNodeDaemon_loop ocs
          \<lparr>retryTimeout = retryTimeout d * 2,
           world = (world d)\<lparr>trace := trace (world d) @
                   [CallBegin (Some e),
                    LogError ''Failure in transferring new nodes''
                      (Errorf ''error starting transaction to read nodes'' e),
                    Sleep (retryTimeout d)]\<rparr>\<rparr>"
proof -
  have cyc: "newNodeDaemon_cycle oc d =
        Running \<lparr>retryTimeout = retryTimeout d * 2,
                 world = (world d)\<lparr>trace := trace (world d) @
                   [CallBegin (Some e),
                    LogError ''Failure in transferring new nodes''
                      (Errorf ''error starting transaction to read nodes'' e),
                    Sleep (retryTimeout d)]\<rparr>\<rparr>"
    by (simp add: newNodeDaemon_cycle_def transferNewNodes_begin_fails [OF b] emit_def)
  show ?thesis
    by (simp add: cyc) (simp add: transferNewNodes_begin_fails [OF b] emit_def)
qed

theorem begin_error_aborts_cycle_witness:
  "fst (transferNewNodes locked store2) =
      Some (Errorf ''error starting transaction to read nodes'' (DriverError ''database is locked''))
   \<and> new_events store2 (snd (transferNewNodes locked store2)) =
        [CallBegin (Some (DriverError ''database is locked''))]
   \<and> newNodeDaemon_loop [locked, locked] \<lparr>retryTimeout = Minute, world = store0\<rparr> =
        Running \<lparr>retryTimeout = Minute * 2 * 2,
          world = store0\<lparr>trace :=
            [CallBegin (Some (DriverError ''database is locked'')),
             LogError ''Failure in transferring new nodes''
               (Errorf ''error starting transaction to read nodes'' (DriverError ''database is locked'')),
             Sleep Minute,
             CallBegin (Some (DriverError ''database is locked'')),
             LogError ''Failure in transferring new nodes''
               (Errorf ''error starting transaction to read nodes'' (DriverError ''database is locked'')),
             Sleep (Minute * 2)]\<rparr>\<rparr>"
proof -
  have b: "begin_err locked = Some (DriverError ''database is locked'')"
    by (simp add: example_defs)
  from begin_error_aborts_cycle [OF b, of store2]
    begin_error_aborts_cycle [OF b, of _ "\<lparr>retryTimeout = Minute, world = store0\<rparr>" "[locked]"]
    begin_error_aborts_cycle [OF b, of _ _ "[]"]
  show ?thesis
    by (simp add: store0_def)
qed

text \<open>
  C6. In every eviction cycle in which \<^verbatim>\<open>apidb.DropOldNodes\<close> returns an error,
  \<^verbatim>\<open>dropDaemon\<close> panics with that error: the loop ends there, whatever the cycles
  that would have followed, and after the failed delete the only further call is the
  deferred \<^verbatim>\<open>ticker.Stop()\<close>.
\<close>

theorem drop_error_panics:
  assumes "drop_err oc = Some e"
  shows "dropDaemon_cycle dt oc d = Panicked e (state_of (dropDaemon_cycle dt oc d))
    \<and> dropDaemon_loop dt (oc # rest) d = dropDaemon_cycle dt oc d
    \<and> new_events (db d) (db (state_of (dropDaemon_cycle dt oc d))) =
        [TickerRecv (fst (ticker_recv (clock d) (the_ticker d))),
         CallDropOldNodes (fst (ticker_recv (clock d) (the_ticker d))) dt (Some e),
         TickerStop]
    \<and> serving (db (state_of (dropDaemon_cycle dt oc d))) = serving (db d)"
  by (simp add: dropDaemon_cycle_fails [OF assms] new_events_def)

theorem drop_error_panics_witness:
  "dropDaemon_loop day [drop_fails, drop_ok 5, drop_ok 5] dropper0 =
     Panicked (DriverError ''database disk image is malformed'')
       \<lparr>the_ticker = \<lparr>period = 600000000000, next_fire = 1200000000000\<rparr>,
        clock = 600000000007,
        db = store0\<lparr>trace :=
          [TickerRecv 600000000000,
           CallDropOldNodes 600000000000 day (Some (DriverError ''database disk image is malformed'')),
           TickerStop]\<rparr>\<rparr>"
proof -
  have h: "drop_err drop_fails = Some (DriverError ''database disk image is malformed'')"
    by (simp add: drop_fails_def)
  from drop_error_panics [OF h, of day dropper0 "[drop_ok 5, drop_ok 5]"] show ?thesis
    by (simp add: dropDaemon_cycle_fails [OF h])
      (simp add: dropper0_def ticker_recv_def drop_fails_def store0_def)
qed

text \<open>
  C7. After every synchronization cycle in which \<^verbatim>\<open>transferNewNodes\<close> returns nil,
  and a cycle that opens the transaction and reads an empty batch is one, the daemon sleeps
  for one second (\<open>10 ^ 9\<close> nanoseconds) and the timer is the base interval for the next
  cycle.
\<close>

theorem success_sleeps_one_second:
  assumes "fst (transferNewNodes oc (world d)) = None
    \<or> (begin_err oc = None \<and> read_err oc = None \<and> pending (world d) = [])"
  shows "newNodeDaemon_cycle oc d =
      Running \<lparr>retryTimeout = Minute,
               world = emit (Sleep Second) (snd (transferNewNodes oc (world d)))\<rparr>
    \<and> sint Second = 1000000000"
proof -
  from assms have "fst (transferNewNodes oc (world d)) = None"
    by (auto simp: transferNewNodes_empty_batch)
  then show ?thesis
    by (cases "transferNewNodes oc (world d)") (simp add: newNodeDaemon_cycle_def Second_def)
qed

theorem success_sleeps_one_second_witness:
  "newNodeDaemon_cycle all_ok \<lparr>retryTimeout = Minute * 2 * 2, world = store0\<rparr> =
      Running \<lparr>retryTimeout = Minute,
        world = store0\<lparr>trace :=
          [CallBegin None, CallReadAndDeleteUnseenNodes None, CallCommit None,
           CallRollback (Some ErrTxDone), Sleep Second]\<rparr>\<rparr>"
proof -
  have h: "begin_err all_ok = None" "read_err all_ok = None" "pending store0 = []"
    by (simp_all add: example_defs)
  then have "fst (transferNewNodes all_ok (world \<lparr>retryTimeout = Minute * 2 * 2, world = store0\<rparr>)) = None
    \<or> (begin_err all_ok = None \<and> read_err all_ok = None
        \<and> pending (world \<lparr>retryTimeout = Minute * 2 * 2, world = store0\<rparr>) = [])"
    by simp
  from success_sleeps_one_second [OF this] show ?thesis
    by (simp add: transferNewNodes_empty_batch [OF h] emit_def) (simp add: example_defs)
qed

text \<open>
  C8 as stated fails: after a cycle whose Commit failed, the batch is still in the
  transient store, but cycles that cannot start their transaction hand nothing to the
  serving store. Here three such cycles follow and none of them makes an insert.
\<close>

theorem commit_error_no_redelivery:
  "fst (transferNewNodes commit_fails store2) = None
   \<and> filter is_insert
       (new_events (world (state_of (newNodeDaemon [commit_fails] store2)))
          (world (state_of (newNodeDaemon [commit_fails, stuck, stuck, stuck] store2)))) = []
   \<and> pending (world (state_of (newNodeDaemon [commit_fails, stuck, stuck, stuck] store2))) =
       [node_A, node_B]"
proof -
  have h: "begin_err commit_fails = None" "read_err commit_fails = None"
    "pending store2 \<noteq> []" "insert_err commit_fails = None"
    "commit_err commit_fails = Some (DriverError ''database is locked'')"
    "begin_err stuck = Some (DriverError ''cannot start a transaction within a transaction'')"
    by (simp_all add: example_defs)
  note first = transferNewNodes_commit_fails [OF h(1-5)]
  note later = transferNewNodes_begin_fails [OF h(6)]
  show ?thesis
    by (simp add: newNodeDaemon_def newNodeDaemon_cycle_def first later emit_def new_events_def)
      (simp add: store2_def)
qed

text \<open>
  C8, amended. When the insert into the serving store succeeds and the Commit of the
  transient-store transaction returns an error, \<^verbatim>\<open>transferNewNodes\<close> still returns nil.
  The daemon takes the cycle for a success: it sleeps one second and the timer is the base
  interval. The records of the batch have been upserted into the serving store and none of
  them has left the transient store; the next cycle whose Begin and read both succeed hands
  the same batch to \<^verbatim>\<open>InsertCrawledNodes\<close> again.
\<close>

theorem commit_error_discarded:
  assumes b: "begin_err oc = None" and rd: "read_err oc = None" and ne: "pending s \<noteq> []"
    and ins: "insert_err oc = None" and c: "commit_err oc = Some e"
    and run: "transferNewNodes oc s = (r, s')"
    and b2: "begin_err oc2 = None" and rd2: "read_err oc2 = None"
    and run2: "transferNewNodes oc2 s' = (r2, s'')"
  shows "r = None
    \<and> CallCommit (Some e) \<in> set (new_events s s')
    \<and> pending s' = pending s
    \<and> serving s' = foldl (\<lambda>rows n. upsert n rows) (serving s) (pending s)
    \<and> node_id ` set (pending s) \<subseteq> served_ids s'
    \<and> newNodeDaemon_cycle oc \<lparr>retryTimeout = t, world = s\<rparr> =
        Running \<lparr>retryTimeout = Minute, world = emit (Sleep Second) s'\<rparr>
    \<and> CallInsertCrawledNodes (pending s) (insert_err oc2) \<in> set (new_events s' s'')"
proof -
  note first = transferNewNodes_commit_fails [OF b rd ne ins c]
  from run first have r: "r = None" and p: "pending s' = pending s"
    and ev: "CallCommit (Some e) \<in> set (new_events s s')"
    and ids: "node_id ` set (pending s) \<subseteq> served_ids s'"
    and srv: "serving s' = foldl (\<lambda>rows n. upsert n rows) (serving s) (pending s)"
    by (auto simp: served_ids_def ids_upsert_all)
  from run r have cyc: "newNodeDaemon_cycle oc \<lparr>retryTimeout = t, world = s\<rparr> =
        Running \<lparr>retryTimeout = Minute, world = emit (Sleep Second) s'\<rparr>"
    by (simp add: newNodeDaemon_cycle_def)
  from ne p have ne2: "pending s' \<noteq> []" by simp
  have again: "CallInsertCrawledNodes (pending s) (insert_err oc2) \<in> set (new_events s' s'')"
  proof (cases "insert_err oc2")
    case (Some e2)
    from run2 transferNewNodes_insert_fails [OF b2 rd2 ne2 Some] p Some show ?thesis
      by auto
  next
    case None
    note i2 = this
    show ?thesis
    proof (cases "commit_err oc2")
      case None
      from run2 transferNewNodes_commit_ok [OF b2 rd2 ne2 i2 None] p i2 show ?thesis
        by auto
    next
      case (Some e2)
      from run2 transferNewNodes_commit_fails [OF b2 rd2 ne2 i2 Some] p i2 show ?thesis
        by auto
    qed
  qed
  from r ev p srv ids cyc again show ?thesis by simp
qed

theorem commit_error_discarded_witness:
  "fst (transferNewNodes commit_fails store2) = None
   \<and> pending (snd (transferNewNodes commit_fails store2)) = [node_A, node_B]
   \<and> CallInsertCrawledNodes [node_A, node_B] None
       \<in> set (new_events (snd (transferNewNodes commit_fails store2))
                (snd (transferNewNodes all_ok (snd (transferNewNodes commit_fails store2)))))"
proof -
  let ?s1 = "snd (transferNewNodes commit_fails store2)"
  have run: "transferNewNodes commit_fails store2 = (fst (transferNewNodes commit_fails store2), ?s1)"
    by simp
  have run2: "transferNewNodes all_ok ?s1 =
      (fst (transferNewNodes all_ok ?s1), snd (transferNewNodes all_ok ?s1))"
    by simp
  have h: "begin_err commit_fails = None" "read_err commit_fails = None" "pending store2 \<noteq> []"
    "insert_err commit_fails = None"
    "commit_err commit_fails = Some (DriverError ''database is locked'')"
    by (simp_all add: example_defs)
  have h2: "begin_err all_ok = None" "read_err all_ok = None"
    by (simp_all add: example_defs)
  from commit_error_discarded [OF h run h2 run2] show ?thesis
    by (simp add: example_defs)
qed

text \<open>
  C9. In a synchronization cycle whose extracted batch is empty, \<^verbatim>\<open>transferNewNodes\<close>
  does not call \<^verbatim>\<open>InsertCrawledNodes\<close> and the serving store is unchanged; Commit is
  still called on the transaction, and nil is returned.
\<close>

theorem empty_batch_no_serving_write:
  assumes run: "transferNewNodes oc s = (r, s')"
    and b: "begin_err oc = None" and rd: "read_err oc = None" and e: "pending s = []"
  shows "r = None \<and> serving s' = serving s
    \<and> \<not> (\<exists>ev \<in> set (new_events s s'). is_insert ev)
    \<and> new_events s s' =
        [CallBegin None, CallReadAndDeleteUnseenNodes None, CallCommit (commit_err oc),
         CallRollback (Some ErrTxDone)]"
  using run transferNewNodes_empty_batch [OF b rd e] by auto

theorem empty_batch_no_serving_write_witness:
  "fst (transferNewNodes all_ok store0) = None
   \<and> serving (snd (transferNewNodes all_ok store0)) = [node_A]
   \<and> new_events store0 (snd (transferNewNodes all_ok store0)) =
        [CallBegin None, CallReadAndDeleteUnseenNodes None, CallCommit None,
         CallRollback (Some ErrTxDone)]"
proof -
  have run: "transferNewNodes all_ok store0 =
      (fst (transferNewNodes all_ok store0), snd (transferNewNodes all_ok store0))"
    by simp
  have h: "begin_err all_ok = None" "read_err all_ok = None" "pending store0 = []"
    by (simp_all add: example_defs)
  from empty_batch_no_serving_write [OF run h] show ?thesis
    by (simp add: example_defs)
qed

text \<open>
  C10. While every delete succeeds, \<^verbatim>\<open>dropDaemon\<close> keeps running and the calls it makes
  are, in turn, one receive from the ticker and one \<^verbatim>\<open>DropOldNodes\<close>: as many deletes as
  ticks received, none before the first tick. The delete number \<open>i + 1\<close> is issued no
  earlier than \<open>i + 1\<close> periods of ten minutes (\<open>6 * 10 ^ 11\<close> nanoseconds) after the
  start of the daemon.
\<close>

theorem drop_waits_for_tick:
  assumes "\<forall>oc \<in> set ocs. drop_err oc = None"
  shows "sint (10 * Minute) = 600000000000
    \<and> (\<exists>d ts. dropDaemon ocs now s dt = Running d \<and> length ts = length ocs
      \<and> new_events s (db d) = tick_events dt ts
      \<and> delete_times (new_events s (db d)) = ts
      \<and> tick_times (new_events s (db d)) = ts
      \<and> (\<forall>i < length ts. now + (int i + 1) * 600000000000 \<le> ts ! i))"
proof -
  let ?d0 = "\<lparr>the_ticker = \<lparr>period = 600000000000, next_fire = now + 600000000000\<rparr>,
              clock = now, db = s\<rparr>"
  have start: "dropDaemon ocs now s dt = dropDaemon_loop dt ocs ?d0"
    by (simp add: dropDaemon_def NewTicker_def sint_ten_minutes)
  from dropDaemon_loop_ticks [OF assms, of ?d0 "now + 600000000000" dt]
  obtain d' ts where run: "dropDaemon_loop dt ocs ?d0 = Running d'"
    and len: "length ts = length ocs"
    and tr: "trace (db d') = trace s @ tick_events dt ts"
    and bnd: "\<forall>i < length ts. now + 600000000000 + int i * 600000000000 \<le> ts ! i"
    by auto
  from tr have ev: "new_events s (db d') = tick_events dt ts"
    by (simp add: new_events_def)
  from bnd have "\<forall>i < length ts. now + (int i + 1) * 600000000000 \<le> ts ! i"
    by (simp add: algebra_simps)
  with start run len ev show ?thesis
    by (auto simp: times_tick_events sint_ten_minutes)
qed

theorem drop_waits_for_tick_witness:
  "dropDaemon [drop_ok 5, drop_ok 1500000000000, drop_ok 0] 0 store0 day =
     Running \<lparr>the_ticker = \<lparr>period = 600000000000, next_fire = 3000000000000\<rparr>,
        clock = 2700000000000,
        db = store0\<lparr>trace := tick_events day [600000000000, 1200000000000, 2700000000000]\<rparr>\<rparr>
   \<and> delete_times (new_events store0
        (db (state_of (dropDaemon [drop_ok 5, drop_ok 1500000000000, drop_ok 0] 0 store0 day)))) =
       [600000000000, 1200000000000, 2700000000000]"
proof -
  let ?ocs = "[drop_ok 5, drop_ok 1500000000000, drop_ok 0]"
  let ?ts = "[600000000000, 1200000000000, 2700000000000]"
  have h: "\<forall>oc \<in> set ?ocs. drop_err oc = None"
    by (simp add: drop_ok_def)
  have run: "dropDaemon ?ocs 0 store0 day =
     Running \<lparr>the_ticker = \<lparr>period = 600000000000, next_fire = 3000000000000\<rparr>,
        clock = 2700000000000, db = store0\<lparr>trace := tick_events day ?ts\<rparr>\<rparr>"
    by (simp add: dropDaemon_def NewTicker_def sint_ten_minutes dropDaemon_cycle_def
        ticker_recv_def DropOldNodes_def emit_def drop_ok_def store0_def tick_events_def
        node_A_def day_def Second_def)
  from drop_waits_for_tick [OF h, of 0 store0 day] obtain d ts
    where rd: "dropDaemon ?ocs 0 store0 day = Running d"
      and ev: "new_events store0 (db d) = tick_events day ts"
      and dl: "delete_times (new_events store0 (db d)) = ts"
    by blast
  from rd run have "new_events store0 (db d) = tick_events day ?ts"
    by (simp add: new_events_def store0_def)
  with ev have "delete_times (tick_events day ts) = delete_times (tick_events day ?ts)"
    by simp
  then have "ts = ?ts"
    by (simp only: times_tick_events)
  with dl rd run show ?thesis
    by simp
qed

end
